theory Spec2Isabelle
  imports Complex_Main "HOL-Library.Word" "HOL-Library.Signed_Division" "HOL-Library.Multiset"
begin

section \<open>Go values\<close>

text \<open>
  Go's \<open>int\<close> is taken at 64 bits (the amd64 and arm64 targets): addition, subtraction and
  multiplication wrap around, comparisons read the value as two's complement (\<open>sint\<close>), and
  \<open>/\<close> truncates towards zero and panics on a zero divisor.  Values on which the program
  does arithmetic (page, page size, offset, total) are \<open>go_int\<close>.  A record id is only ever
  compared and passed on, so it is kept as the integer it denotes.  A \<open>time.Time\<close> is the
  instant it denotes, counted in microseconds, the resolution of the store's column type.
  A string is the list of its characters.
\<close>

type_synonym go_int = "64 word"

type_synonym timestamp = int

datatype go_panic = IntegerDivideByZero

definition go_quo :: "go_int \<Rightarrow> go_int \<Rightarrow> go_panic + go_int" where
  "go_quo a b = (if b = 0 then Inl IntegerDivideByZero else Inr (word_of_int (sint a sdiv sint b)))"

definition digit_char :: "nat \<Rightarrow> char" where
  "digit_char d = ''0123456789'' ! (d mod 10)"

text \<open>\<open>fmt.Sprintf("%d", n)\<close> for a non-negative \<open>n\<close>.\<close>

function sprintf_d :: "nat \<Rightarrow> string" where
  "sprintf_d n = (if n < 10 then [digit_char n] else sprintf_d (n div 10) @ [digit_char (n mod 10)])"
  by pat_completeness auto
termination
  by (relation "measure (\<lambda>n. n)") auto

section \<open>internal/model and internal/dto\<close>

record Todo =
  ID :: int
  Title :: string
  Description :: string
  Completed :: bool
  CreatedAt :: timestamp
  UpdatedAt :: timestamp

record CreateTodoRequest =
  create_Title :: string
  create_Description :: string
  create_Completed :: bool

text \<open>A pointer field of \<open>UpdateTodoRequest\<close> is \<open>None\<close> when nil and \<open>Some v\<close> when it points to \<open>v\<close>.\<close>

record UpdateTodoRequest =
  update_Title :: "string option"
  update_Description :: "string option"
  update_Completed :: "bool option"

text \<open>The \<open>binding\<close> tags of the two request types: what a request that passed validation satisfies.\<close>

definition valid_create :: "CreateTodoRequest \<Rightarrow> bool" where
  "valid_create req \<longleftrightarrow>
     1 \<le> length (create_Title req) \<and> length (create_Title req) \<le> 255 \<and>
     length (create_Description req) \<le> 1000"

definition valid_update :: "UpdateTodoRequest \<Rightarrow> bool" where
  "valid_update req \<longleftrightarrow>
     (case update_Title req of None \<Rightarrow> True | Some t \<Rightarrow> 1 \<le> length t \<and> length t \<le> 255) \<and>
     (case update_Description req of None \<Rightarrow> True | Some d \<Rightarrow> length d \<le> 1000)"

record TodoResponse =
  resp_ID :: int
  resp_Title :: string
  resp_Description :: string
  resp_Completed :: bool
  resp_CreatedAt :: timestamp
  resp_UpdatedAt :: timestamp

record TodoListResponse =
  Todos :: "TodoResponse list"
  Total :: go_int
  Page :: go_int
  PageSize :: go_int
  TotalPages :: go_int

definition ToTodoResponse :: "Todo \<Rightarrow> TodoResponse" where
  "ToTodoResponse todo =
     \<lparr>resp_ID = ID todo, resp_Title = Title todo, resp_Description = Description todo,
      resp_Completed = Completed todo, resp_CreatedAt = CreatedAt todo,
      resp_UpdatedAt = UpdatedAt todo\<rparr>"

definition ToTodoResponseList :: "Todo list \<Rightarrow> TodoResponse list" where
  "ToTodoResponseList todos = map ToTodoResponse todos"

definition ToTodoListResponse ::
  "Todo list \<Rightarrow> go_int \<Rightarrow> go_int \<Rightarrow> go_int \<Rightarrow> go_panic + TodoListResponse" where
  "ToTodoListResponse todos total' page pageSize =
     (case go_quo (total' + pageSize - 1) pageSize of
        Inl p \<Rightarrow> Inl p
      | Inr totalPages0 \<Rightarrow>
          let totalPages = (if totalPages0 = 0 then 1 else totalPages0)
          in Inr \<lparr>Todos = ToTodoResponseList todos, Total = total', Page = page,
                  PageSize = pageSize, TotalPages = totalPages\<rparr>)"

section \<open>The store: migrations/001\_create\_todos\_table.sql\<close>

text \<open>
  The table \<open>todos\<close> is the list of its rows together with the last value handed out by the
  sequence behind \<open>id SERIAL\<close>.  The repository is the only writer and always supplies a
  description, so every row has all six columns set and is held as a \<open>Todo\<close>.

  A store call can fail for reasons outside the table: the connection is lost, the context
  is cancelled or times out, the driver or the server rejects the statement.  Such a failure
  is an input of the model (\<open>store_failure option\<close>, \<open>None\<close> when the call goes through);
  a call that fails this way leaves the table as it was.  The instant \<open>NOW()\<close> denotes is
  an input too.
\<close>

record database =
  todos :: "Todo list"
  todos_id_seq :: int

definition empty_database :: database where
  "empty_database = \<lparr>todos = [], todos_id_seq = 0\<rparr>"

datatype store_failure = ContextCanceled | DeadlineExceeded | Rejected string

datatype pgx_error = ErrNoRows | Failure store_failure

datatype sql_value = SqlText string | SqlBool bool | SqlInt int

datatype column = ColTitle | ColDescription | ColCompleted

text \<open>
  \<open>title VARCHAR(255)\<close>: a longer value is an error, unless the excess characters are all
  spaces, in which case it is cut to 255 characters.
\<close>

definition varchar255 :: "string \<Rightarrow> string option" where
  "varchar255 s =
     (if length s \<le> 255 then Some s
      else if list_all (\<lambda>c. c = CHR '' '') (drop 255 s) then Some (take 255 s)
      else None)"

definition reject :: "string \<Rightarrow> database \<Rightarrow> (pgx_error + 'a) \<times> database" where
  "reject msg db = (Inl (Failure (Rejected msg)), db)"

text \<open>
  \<open>INSERT INTO todos (title, description, completed) VALUES ($1, $2, $3) RETURNING ...\<close>:
  the id is the next value of the sequence (an \<open>int4\<close>, and a value once drawn is not given
  back), both timestamps default to the same \<open>NOW()\<close>, the primary key refuses a
  duplicate id.
\<close>

definition exec_insert ::
  "store_failure option \<Rightarrow> timestamp \<Rightarrow> string \<Rightarrow> string \<Rightarrow> bool \<Rightarrow> database \<Rightarrow>
     (pgx_error + Todo) \<times> database" where
  "exec_insert fault now title description completed db =
     (case fault of
        Some f \<Rightarrow> (Inl (Failure f), db)
      | None \<Rightarrow>
          if todos_id_seq db \<ge> 2147483647 then reject ''sequence exhausted'' db
          else
            let newid = todos_id_seq db + 1;
                db1 = db\<lparr>todos_id_seq := newid\<rparr>
            in (case varchar255 title of
                  None \<Rightarrow> reject ''value too long'' db1
                | Some t \<Rightarrow>
                    if list_ex (\<lambda>r. ID r = newid) (todos db1) then reject ''duplicate key'' db1
                    else
                      let row = \<lparr>ID = newid, Title = t, Description = description,
                                 Completed = completed, CreatedAt = now, UpdatedAt = now\<rparr>
                      in (Inr row, db1\<lparr>todos := todos db1 @ [row]\<rparr>)))"

text \<open>\<open>SELECT ... FROM todos WHERE id = $1\<close>, read with \<open>QueryRow(...).Scan\<close>.\<close>

definition exec_select_by_id :: "store_failure option \<Rightarrow> int \<Rightarrow> database \<Rightarrow> pgx_error + Todo" where
  "exec_select_by_id fault id' db =
     (case fault of
        Some f \<Rightarrow> Inl (Failure f)
      | None \<Rightarrow> (case find (\<lambda>r. ID r = id') (todos db) of None \<Rightarrow> Inl ErrNoRows | Some r \<Rightarrow> Inr r))"

text \<open>\<open>DELETE FROM todos WHERE id = $1\<close>: the result is the number of rows affected.\<close>

definition exec_delete ::
  "store_failure option \<Rightarrow> int \<Rightarrow> database \<Rightarrow> (pgx_error + nat) \<times> database" where
  "exec_delete fault id' db =
     (case fault of
        Some f \<Rightarrow> (Inl (Failure f), db)
      | None \<Rightarrow> (Inr (length (filter (\<lambda>r. ID r = id') (todos db))),
                 db\<lparr>todos := filter (\<lambda>r. ID r \<noteq> id') (todos db)\<rparr>))"

text \<open>The \<open>WHERE completed = $1\<close> of the two listing statements, absent when no filter is given.\<close>

definition where_completed :: "bool option \<Rightarrow> Todo \<Rightarrow> bool" where
  "where_completed completed r = (case completed of None \<Rightarrow> True | Some c \<Rightarrow> Completed r = c)"

text \<open>\<open>SELECT COUNT(*) FROM todos [WHERE completed = $1]\<close>, scanned into a Go \<open>int\<close>.\<close>

definition exec_count :: "store_failure option \<Rightarrow> bool option \<Rightarrow> database \<Rightarrow> pgx_error + go_int" where
  "exec_count fault completed db =
     (case fault of
        Some f \<Rightarrow> Inl (Failure f)
      | None \<Rightarrow> Inr (of_nat (length (filter (where_completed completed) (todos db)))))"

text \<open>
  \<open>ORDER BY created_at DESC\<close>.  The store does not say in which order rows of equal
  \<open>created_at\<close> come; here they keep the order of the table.
\<close>

definition order_by_created_at_desc :: "Todo list \<Rightarrow> Todo list" where
  "order_by_created_at_desc rs = sort_key (\<lambda>r. - CreatedAt r) rs"

text \<open>
  \<open>SELECT ... FROM todos [WHERE completed = $1] ORDER BY created_at DESC LIMIT $n OFFSET $m\<close>:
  a negative limit or offset is an error of the statement.
\<close>

definition exec_select_page ::
  "bool option \<Rightarrow> go_int \<Rightarrow> go_int \<Rightarrow> database \<Rightarrow> pgx_error + Todo list" where
  "exec_select_page completed limit offset db =
     (if sint limit < 0 then Inl (Failure (Rejected ''LIMIT must not be negative''))
      else if sint offset < 0 then Inl (Failure (Rejected ''OFFSET must not be negative''))
      else Inr (take (nat (sint limit)) (drop (nat (sint offset))
                  (order_by_created_at_desc (filter (where_completed completed) (todos db))))))"

subsection \<open>The dynamic UPDATE statement, read from its text\<close>

text \<open>
  The text of the update statement depends on the request, so the store's side is modelled as
  a reader of that text: the statement is cut into words at the spaces and must have the form
  \<open>UPDATE todos SET col = $i, ... WHERE id = $k RETURNING id, title, description, completed,
  created_at, updated_at\<close>.
\<close>

fun split_on :: "char \<Rightarrow> string \<Rightarrow> string list" where
  "split_on c [] = [[]]"
| "split_on c (x # xs) =
     (if x = c then [] # split_on c xs
      else (case split_on c xs of [] \<Rightarrow> [[x]] | w # ws \<Rightarrow> (x # w) # ws))"

definition digit_val :: "char \<Rightarrow> nat option" where
  "digit_val c =
     (if c = CHR ''0'' then Some 0 else if c = CHR ''1'' then Some 1
      else if c = CHR ''2'' then Some 2 else if c = CHR ''3'' then Some 3
      else if c = CHR ''4'' then Some 4 else if c = CHR ''5'' then Some 5
      else if c = CHR ''6'' then Some 6 else if c = CHR ''7'' then Some 7
      else if c = CHR ''8'' then Some 8 else if c = CHR ''9'' then Some 9
      else None)"

fun parse_digits :: "nat \<Rightarrow> string \<Rightarrow> nat option" where
  "parse_digits acc [] = Some acc"
| "parse_digits acc (c # cs) =
     (case digit_val c of None \<Rightarrow> None | Some d \<Rightarrow> parse_digits (10 * acc + d) cs)"

definition parse_placeholder :: "string \<Rightarrow> nat option" where
  "parse_placeholder s =
     (case s of
        [] \<Rightarrow> None
      | c # ds \<Rightarrow> if c = CHR ''$'' \<and> ds \<noteq> [] then parse_digits 0 ds else None)"

definition column_of :: "string \<Rightarrow> column option" where
  "column_of w =
     (if w = ''title'' then Some ColTitle
      else if w = ''description'' then Some ColDescription
      else if w = ''completed'' then Some ColCompleted
      else None)"

fun parse_set_list :: "string list \<Rightarrow> ((column \<times> nat) list \<times> string list) option" where
  "parse_set_list (c # eq # p # rest) =
     (if eq \<noteq> ''='' then None
      else (case column_of c of
              None \<Rightarrow> None
            | Some col \<Rightarrow>
                if p \<noteq> [] \<and> last p = CHR '','' then
                  (case parse_placeholder (butlast p) of
                     None \<Rightarrow> None
                   | Some n \<Rightarrow>
                       (case parse_set_list rest of
                          None \<Rightarrow> None
                        | Some (sets, rest') \<Rightarrow> Some ((col, n) # sets, rest')))
                else
                  (case parse_placeholder p of
                     None \<Rightarrow> None
                   | Some n \<Rightarrow> Some ([(col, n)], rest))))"
| "parse_set_list _ = None"

definition returning_clause :: "string list" where
  "returning_clause =
     [''RETURNING'', ''id,'', ''title,'', ''description,'', ''completed,'', ''created_at,'',
      ''updated_at'']"

definition parse_update :: "string \<Rightarrow> ((column \<times> nat) list \<times> nat) option" where
  "parse_update query =
     (let ws = split_on CHR '' '' query in
      if take 3 ws \<noteq> [''UPDATE'', ''todos'', ''SET''] then None
      else (case parse_set_list (drop 3 ws) of
              None \<Rightarrow> None
            | Some (sets, rest) \<Rightarrow>
                if take 3 rest = [''WHERE'', ''id'', ''=''] \<and> drop 4 rest = returning_clause
                   \<and> length rest = 11
                then (case parse_placeholder (rest ! 3) of
                        None \<Rightarrow> None
                      | Some k \<Rightarrow> Some (sets, k))
                else None))"

text \<open>The type a column takes; a bound argument of another type is refused.\<close>

fun column_accepts :: "column \<Rightarrow> sql_value \<Rightarrow> bool" where
  "column_accepts ColTitle (SqlText s) = True"
| "column_accepts ColDescription (SqlText s) = True"
| "column_accepts ColCompleted (SqlBool b) = True"
| "column_accepts _ _ = False"

fun set_column :: "column \<Rightarrow> sql_value \<Rightarrow> Todo \<Rightarrow> Todo option" where
  "set_column ColTitle (SqlText s) r = map_option (\<lambda>t. r\<lparr>Title := t\<rparr>) (varchar255 s)"
| "set_column ColDescription (SqlText s) r = Some (r\<lparr>Description := s\<rparr>)"
| "set_column ColCompleted (SqlBool b) r = Some (r\<lparr>Completed := b\<rparr>)"
| "set_column _ _ r = None"

fun set_columns :: "(column \<times> nat) list \<Rightarrow> sql_value list \<Rightarrow> Todo \<Rightarrow> Todo option" where
  "set_columns [] args r = Some r"
| "set_columns ((c, n) # sets) args r =
     (case set_column c (args ! (n - 1)) r of
        None \<Rightarrow> None
      | Some r' \<Rightarrow> set_columns sets args r')"

text \<open>The trigger \<open>update_todos_updated_at\<close>: before a row is updated, \<open>NEW.updated_at = NOW()\<close>.\<close>

definition update_updated_at_column :: "timestamp \<Rightarrow> Todo \<Rightarrow> Todo" where
  "update_updated_at_column now new = new\<lparr>UpdatedAt := now\<rparr>"

text \<open>
  The parameters \<open>$1 .. $n\<close> of a statement are exactly the arguments bound to it: every
  placeholder names an argument, and every argument is named.
\<close>

definition params_match :: "nat list \<Rightarrow> sql_value list \<Rightarrow> bool" where
  "params_match ps args \<longleftrightarrow>
     list_all (\<lambda>n. 1 \<le> n \<and> n \<le> length args) ps \<and>
     list_all (\<lambda>n. n \<in> set ps) [1..<Suc (length args)]"

text \<open>
  The update rewrites every row the \<open>WHERE\<close> selects, the trigger stamping each; a row that
  cannot be rewritten fails the whole statement.
\<close>

fun update_where :: "(Todo \<Rightarrow> bool) \<Rightarrow> (Todo \<Rightarrow> Todo option) \<Rightarrow> Todo list \<Rightarrow> Todo list option" where
  "update_where P f [] = Some []"
| "update_where P f (x # xs) =
     (if P x then
        (case f x of
           None \<Rightarrow> None
         | Some y \<Rightarrow> (case update_where P f xs of None \<Rightarrow> None | Some ys \<Rightarrow> Some (y # ys)))
      else (case update_where P f xs of None \<Rightarrow> None | Some ys \<Rightarrow> Some (x # ys)))"

text \<open>
  \<open>RETURNING\<close> yields the rewritten rows; \<open>QueryRow(...).Scan\<close> reads the first and reports
  \<open>ErrNoRows\<close> when there is none.
\<close>

definition exec_update ::
  "store_failure option \<Rightarrow> timestamp \<Rightarrow> string \<Rightarrow> sql_value list \<Rightarrow> database \<Rightarrow>
     (pgx_error + Todo) \<times> database" where
  "exec_update fault now query args db =
     (case fault of
        Some f \<Rightarrow> (Inl (Failure f), db)
      | None \<Rightarrow>
          (case parse_update query of
             None \<Rightarrow> reject ''syntax error'' db
           | Some (sets, k) \<Rightarrow>
               if \<not> distinct (map fst sets) then reject ''multiple assignments to same column'' db
               else if \<not> params_match (k # map snd sets) args then reject ''wrong arguments'' db
               else if \<not> list_all (\<lambda>(c, n). column_accepts c (args ! (n - 1))) sets
                 then reject ''wrong argument type'' db
               else
                 (case args ! (k - 1) of
                    SqlInt id' \<Rightarrow>
                      (case update_where (\<lambda>x. ID x = id')
                              (\<lambda>x. map_option (update_updated_at_column now) (set_columns sets args x))
                              (todos db) of
                         None \<Rightarrow> reject ''value too long'' db
                       | Some rows' \<Rightarrow>
                           (case find (\<lambda>r. ID r = id') rows' of
                              None \<Rightarrow> (Inl ErrNoRows, db\<lparr>todos := rows'\<rparr>)
                            | Some r' \<Rightarrow> (Inr r', db\<lparr>todos := rows'\<rparr>)))
                  | _ \<Rightarrow> reject ''wrong argument type'' db)))"

text \<open>
  What the schema guarantees of a table: \<open>id\<close> is a primary key of type \<open>int4\<close>, so no two
  rows share an id and every id is a 32-bit value.
\<close>

definition primary_key_ok :: "database \<Rightarrow> bool" where
  "primary_key_ok db \<longleftrightarrow>
     distinct (map ID (todos db)) \<and>
     list_all (\<lambda>r. - 2147483648 \<le> ID r \<and> ID r \<le> 2147483647) (todos db)"

text \<open>Every id in the table was drawn from the sequence: none lies beyond its last value.\<close>

definition ids_issued :: "database \<Rightarrow> bool" where
  "ids_issued db \<longleftrightarrow> list_all (\<lambda>r. ID r \<le> todos_id_seq db) (todos db)"

section \<open>internal/repository: TodoRepository\<close>

text \<open>
  \<open>ErrNotFound\<close> is the one error the repository declares.  Every other error it returns is
  \<open>fmt.Errorf("<context>: %w", err)\<close>: the store's error \<open>err\<close> wrapped under a context message.
\<close>

datatype repo_error = ErrNotFound | Wrapped string pgx_error

definition Create ::
  "store_failure option \<Rightarrow> timestamp \<Rightarrow> CreateTodoRequest \<Rightarrow> database \<Rightarrow>
     (repo_error + Todo) \<times> database" where
  "Create fault now req db =
     (case exec_insert fault now (create_Title req) (create_Description req) (create_Completed req) db of
        (Inl err, db') \<Rightarrow> (Inl (Wrapped ''failed to create todo'' err), db')
      | (Inr todo, db') \<Rightarrow> (Inr todo, db'))"

definition GetByID :: "store_failure option \<Rightarrow> int \<Rightarrow> database \<Rightarrow> repo_error + Todo" where
  "GetByID fault id' db =
     (case exec_select_by_id fault id' db of
        Inl err \<Rightarrow> if err = ErrNoRows then Inl ErrNotFound else Inl (Wrapped ''failed to get todo'' err)
      | Inr todo \<Rightarrow> Inr todo)"

text \<open>
  Where the second store call of \<open>List\<close> can fail: at \<open>Query\<close>, at a \<open>rows.Scan\<close>, or as
  \<open>rows.Err()\<close> once the rows are read.  An error of the statement itself (a negative limit
  or offset) is reported by the store while the rows are read.
\<close>

datatype list_failure = AtQuery store_failure | AtScan store_failure | AtRowsErr store_failure

definition List ::
  "store_failure option \<Rightarrow> list_failure option \<Rightarrow> go_int \<Rightarrow> go_int \<Rightarrow> bool option \<Rightarrow> database \<Rightarrow>
     repo_error + (Todo list \<times> go_int)" where
  "List count_fault list_fault page0 pageSize0 completed db =
     (let page = (if sint page0 < 1 then 1 else page0);
          pageSize = (if sint pageSize0 < 1 \<or> sint pageSize0 > 100 then 10 else pageSize0);
          offset = (page - 1) * pageSize
      in (case exec_count count_fault completed db of
            Inl err \<Rightarrow> Inl (Wrapped ''failed to count todos'' err)
          | Inr total' \<Rightarrow>
              (case list_fault of
                 Some (AtQuery f) \<Rightarrow> Inl (Wrapped ''failed to list todos'' (Failure f))
               | Some (AtScan f) \<Rightarrow> Inl (Wrapped ''failed to scan todo'' (Failure f))
               | Some (AtRowsErr f) \<Rightarrow> Inl (Wrapped ''error iterating todos'' (Failure f))
               | None \<Rightarrow>
                   (case exec_select_page completed pageSize offset db of
                      Inl err \<Rightarrow> Inl (Wrapped ''error iterating todos'' err)
                    | Inr todos' \<Rightarrow> Inr (todos', total')))))"

fun joinStrings :: "string list \<Rightarrow> string \<Rightarrow> string" where
  "joinStrings [] sep = []"
| "joinStrings (s # strs) sep = foldl (\<lambda>result x. result @ sep @ x) s strs"

text \<open>
  The three \<open>if req.X != nil\<close> blocks of \<open>Update\<close>: each appends an assignment to \<open>updates\<close>
  and a value to \<open>args\<close> and advances \<open>argPosition\<close>, which starts at 1.
\<close>

definition update_assignments :: "UpdateTodoRequest \<Rightarrow> string list \<times> sql_value list \<times> nat" where
  "update_assignments req =
     (let (updates, args, argPosition) = ([], [], 1);
          (updates, args, argPosition) =
            (case update_Title req of
               Some v \<Rightarrow> (updates @ [''title = $'' @ sprintf_d argPosition],
                          args @ [SqlText v], argPosition + 1)
             | None \<Rightarrow> (updates, args, argPosition));
          (updates, args, argPosition) =
            (case update_Description req of
               Some v \<Rightarrow> (updates @ [''description = $'' @ sprintf_d argPosition],
                          args @ [SqlText v], argPosition + 1)
             | None \<Rightarrow> (updates, args, argPosition));
          (updates, args, argPosition) =
            (case update_Completed req of
               Some v \<Rightarrow> (updates @ [''completed = $'' @ sprintf_d argPosition],
                          args @ [SqlBool v], argPosition + 1)
             | None \<Rightarrow> (updates, args, argPosition))
      in (updates, args, argPosition))"

definition update_query :: "string list \<Rightarrow> nat \<Rightarrow> string" where
  "update_query updates argPosition =
     ''UPDATE todos SET '' @ joinStrings updates '', '' @ '' WHERE id = $'' @ sprintf_d argPosition
       @ '' RETURNING id, title, description, completed, created_at, updated_at''"

text \<open>The statement and the arguments \<open>Update\<close> hands to the store, \<open>None\<close> when it hands none.\<close>

definition update_statement :: "int \<Rightarrow> UpdateTodoRequest \<Rightarrow> (string \<times> sql_value list) option" where
  "update_statement id' req =
     (case update_assignments req of
        (updates, args, argPosition) \<Rightarrow>
          if length updates = 0 then None
          else Some (update_query updates argPosition, args @ [SqlInt id']))"

definition Update ::
  "store_failure option \<Rightarrow> store_failure option \<Rightarrow> timestamp \<Rightarrow> int \<Rightarrow> UpdateTodoRequest \<Rightarrow>
     database \<Rightarrow> (repo_error + Todo) \<times> database" where
  "Update get_fault update_fault now id' req db =
     (case GetByID get_fault id' db of
        Inl err \<Rightarrow> (Inl err, db)
      | Inr existing \<Rightarrow>
          (case update_statement id' req of
             None \<Rightarrow> (Inr existing, db)
           | Some (query, args) \<Rightarrow>
               (case exec_update update_fault now query args db of
                  (Inl err, db') \<Rightarrow> (Inl (Wrapped ''failed to update todo'' err), db')
                | (Inr todo, db') \<Rightarrow> (Inr todo, db'))))"

text \<open>\<open>Delete\<close> returns an error or nil: \<open>Some err\<close> or \<open>None\<close>.\<close>

definition Delete :: "store_failure option \<Rightarrow> int \<Rightarrow> database \<Rightarrow> repo_error option \<times> database" where
  "Delete fault id' db =
     (case exec_delete fault id' db of
        (Inl err, db') \<Rightarrow> (Some (Wrapped ''failed to delete todo'' err), db')
      | (Inr rowsAffected, db') \<Rightarrow> if rowsAffected = 0 then (Some ErrNotFound, db') else (None, db'))"

subsection \<open>Sequences of calls\<close>

datatype call =
    CallCreate "store_failure option" timestamp CreateTodoRequest
  | CallGetByID "store_failure option" int
  | CallList "store_failure option" "list_failure option" go_int go_int "bool option"
  | CallUpdate "store_failure option" "store_failure option" timestamp int UpdateTodoRequest
  | CallDelete "store_failure option" int

datatype reply =
    Created "repo_error + Todo"
  | Got "repo_error + Todo"
  | Listed "repo_error + (Todo list \<times> go_int)"
  | Updated "repo_error + Todo"
  | Deleted "repo_error option"

fun perform :: "call \<Rightarrow> database \<Rightarrow> reply \<times> database" where
  "perform (CallCreate f now req) db = (case Create f now req db of (r, db') \<Rightarrow> (Created r, db'))"
| "perform (CallGetByID f i) db = (Got (GetByID f i db), db)"
| "perform (CallList cf lf page pageSize completed) db = (Listed (List cf lf page pageSize completed db), db)"
| "perform (CallUpdate gf uf now i req) db = (case Update gf uf now i req db of (r, db') \<Rightarrow> (Updated r, db'))"
| "perform (CallDelete f i) db = (case Delete f i db of (r, db') \<Rightarrow> (Deleted r, db'))"

fun run :: "call list \<Rightarrow> database \<Rightarrow> reply list \<times> database" where
  "run [] db = ([], db)"
| "run (c # cs) db =
     (case perform c db of (r, db') \<Rightarrow> (case run cs db' of (rs, db'') \<Rightarrow> (r # rs, db'')))"

text \<open>The records a sequence of calls created: what its successful \<open>Create\<close> calls returned.\<close>

fun created :: "reply list \<Rightarrow> Todo list" where
  "created [] = []"
| "created (Created (Inr todo) # rs) = todo # created rs"
| "created (r # rs) = created rs"

section \<open>internal/handler: TodoHandler\<close>

text \<open>
  The query string is a map from a key to its first value.  \<open>c.Query\<close> gives the empty string
  for a key that is absent, \<open>c.DefaultQuery\<close> the default.  \<open>strconv.Atoi\<close> belongs to Go's
  library and is a parameter: \<open>None\<close> where it returns an error.
\<close>

definition Query :: "(string \<rightharpoonup> string) \<Rightarrow> string \<Rightarrow> string" where
  "Query q key = (case q key of None \<Rightarrow> [] | Some v \<Rightarrow> v)"

definition DefaultQuery :: "(string \<rightharpoonup> string) \<Rightarrow> string \<Rightarrow> string \<Rightarrow> string" where
  "DefaultQuery q key dflt = (case q key of None \<Rightarrow> dflt | Some v \<Rightarrow> v)"

text \<open>\<open>ListTodos\<close> up to its call of the service: the page, page size and filter it passes.\<close>

definition ListTodos_args ::
  "(string \<Rightarrow> go_int option) \<Rightarrow> (string \<rightharpoonup> string) \<Rightarrow> go_int \<times> go_int \<times> bool option" where
  "ListTodos_args Atoi q =
     (let page = 1;
          pageStr = DefaultQuery q ''page'' ''1'';
          page = (if pageStr \<noteq> [] then (case Atoi pageStr of Some p \<Rightarrow> p | None \<Rightarrow> page) else page);
          pageSize = 10;
          pageSizeStr = DefaultQuery q ''page_size'' ''10'';
          pageSize = (if pageSizeStr \<noteq> []
                      then (case Atoi pageSizeStr of Some ps \<Rightarrow> ps | None \<Rightarrow> pageSize)
                      else pageSize);
          completedStr = Query q ''completed'';
          completed = (if completedStr \<noteq> [] then Some (completedStr = ''true'') else None)
      in (page, pageSize, completed))"



section \<open>The specification's words\<close>

text \<open>The normalization policy of \<open>List\<close>: a page below 1 becomes 1, a page size outside 1 to 100 becomes 10.\<close>

definition spec_page :: "go_int \<Rightarrow> go_int" where
  "spec_page page = (if sint page < 1 then 1 else page)"

definition spec_pageSize :: "go_int \<Rightarrow> go_int" where
  "spec_pageSize pageSize = (if 1 \<le> sint pageSize \<and> sint pageSize \<le> 100 then pageSize else 10)"

text \<open>
  A partial update of a record: a supplied field replaces the record's, an omitted field keeps
  its value, and \<open>updated_at\<close> is refreshed.
\<close>

definition spec_partial_update :: "UpdateTodoRequest \<Rightarrow> timestamp \<Rightarrow> Todo \<Rightarrow> Todo" where
  "spec_partial_update req now r =
     (let r1 = (case update_Title req of Some v \<Rightarrow> r\<lparr>Title := v\<rparr> | None \<Rightarrow> r);
          r2 = (case update_Description req of Some v \<Rightarrow> r1\<lparr>Description := v\<rparr> | None \<Rightarrow> r1);
          r3 = (case update_Completed req of Some v \<Rightarrow> r2\<lparr>Completed := v\<rparr> | None \<Rightarrow> r2)
      in r3\<lparr>UpdatedAt := now\<rparr>)"

text \<open>The supplied fields of an update request, as column and value, in the order they are appended.\<close>

definition supplied_fields :: "UpdateTodoRequest \<Rightarrow> (column \<times> sql_value) list" where
  "supplied_fields req =
     (case update_Title req of Some v \<Rightarrow> [(ColTitle, SqlText v)] | None \<Rightarrow> []) @
     (case update_Description req of Some v \<Rightarrow> [(ColDescription, SqlText v)] | None \<Rightarrow> []) @
     (case update_Completed req of Some v \<Rightarrow> [(ColCompleted, SqlBool v)] | None \<Rightarrow> [])"

fun column_name :: "column \<Rightarrow> string" where
  "column_name ColTitle = ''title''"
| "column_name ColDescription = ''description''"
| "column_name ColCompleted = ''completed''"

fun spec_join :: "string list \<Rightarrow> string" where
  "spec_join [] = []"
| "spec_join [x] = x"
| "spec_join (x # y # ys) = x @ '', '' @ spec_join (y # ys)"

text \<open>
  The update statement for a list of columns: the j-th column is assigned placeholder \<open>$j\<close>,
  and the id is placeholder \<open>$(k+1)\<close> for \<open>k\<close> columns.
\<close>

definition spec_update_query :: "column list \<Rightarrow> string" where
  "spec_update_query cols =
     ''UPDATE todos SET ''
       @ spec_join (map (\<lambda>(c, j). column_name c @ '' = $'' @ sprintf_d j)
                        (zip cols [1..<Suc (length cols)]))
       @ '' WHERE id = $'' @ sprintf_d (Suc (length cols))
       @ '' RETURNING id, title, description, completed, created_at, updated_at''"

section \<open>Example data\<close>

definition row1 :: Todo where
  "row1 = \<lparr>ID = 1, Title = ''Buy milk'', Description = [], Completed = False,
           CreatedAt = 5, UpdatedAt = 5\<rparr>"

definition row2 :: Todo where
  "row2 = \<lparr>ID = 2, Title = ''Walk'', Description = ''dog'', Completed = True,
           CreatedAt = 7, UpdatedAt = 8\<rparr>"

definition two_rows :: database where
  "two_rows = \<lparr>todos = [row1, row2], todos_id_seq = 2\<rparr>"

text \<open>\<open>strconv.Atoi\<close> on the two default strings of \<open>ListTodos\<close>.\<close>

definition Atoi_defaults :: "string \<Rightarrow> go_int option" where
  "Atoi_defaults s = (if s = ''1'' then Some 1 else if s = ''10'' then Some 10 else None)"

section \<open>Arithmetic of Go's int\<close>

lemma int_up_div:
  fixes a b :: int
  assumes b: "0 < b"
  shows "(a + b - 1) div b = (if a mod b = 0 then a div b else a div b + 1)"
proof -
  define q where "q = a div b"
  define r where "r = a mod b"
  have a: "a = r + q * b" by (simp add: q_def r_def)
  have r: "0 \<le> r" "r < b" using b by (simp_all add: r_def)
  show ?thesis
  proof (cases "r = 0")
    case True
    have "a + b - 1 = (b - 1) + q * b" using a True by simp
    then have "(a + b - 1) div b = ((b - 1) + q * b) div b" by (simp only:)
    also have "\<dots> = (b - 1) div b + q" using b by (subst div_mult_self1) simp_all
    also have "(b - 1) div b = 0" using b by (simp add: div_pos_pos_trivial)
    finally show ?thesis using True by (simp add: q_def r_def)
  next
    case False
    have "a + b - 1 = (r - 1) + (q + 1) * b" using a by (simp add: algebra_simps)
    then have "(a + b - 1) div b = ((r - 1) + (q + 1) * b) div b" by (simp only:)
    also have "\<dots> = (r - 1) div b + (q + 1)" using b by (subst div_mult_self1) simp_all
    also have "(r - 1) div b = 0" using r False by (simp add: div_pos_pos_trivial)
    finally show ?thesis using False by (simp add: q_def r_def)
  qed
qed

lemma ceiling_divide_int:
  fixes a b :: int
  assumes b: "0 < b"
  shows "\<lceil>real_of_int a / real_of_int b\<rceil> = (a + b - 1) div b"
proof -
  have "\<lceil>real_of_int a / real_of_int b\<rceil> = - \<lfloor>real_of_int (- a) / real_of_int b\<rfloor>"
    by (simp add: ceiling_def)
  also have "\<dots> = - ((- a) div b)"
    by (simp only: floor_divide_of_int_eq)
  also have "\<dots> = (a + b - 1) div b"
    using b by (simp add: int_up_div zdiv_zminus1_eq_if)
  finally show ?thesis .
qed

lemma sint_go_int_range: "- (2 ^ 63) \<le> sint (w :: go_int) \<and> sint w < 2 ^ 63"
  using sint_range_size [of w] by (simp add: word_size)

lemma sint_word_of_int_go: "- (2 ^ 63) \<le> k \<Longrightarrow> k < 2 ^ 63 \<Longrightarrow> sint (word_of_int k :: go_int) = k"
  by (simp add: sint_sbintrunc' signed_take_bit_int_eq_self)

lemma sint_add_sub_go:
  assumes "0 \<le> sint (a :: go_int)" "1 \<le> sint (b :: go_int)" "sint a + sint b - 1 < 2 ^ 63"
  shows "sint (a + b - 1) = sint a + sint b - 1"
proof -
  have "a + b - 1 = word_of_int (sint a + sint b - 1)" by simp
  then show ?thesis using assms sint_go_int_range [of a] sint_go_int_range [of b]
    by (simp only: sint_word_of_int_go)
qed

lemma go_quo_nonneg:
  assumes a: "0 \<le> sint a" and b: "1 \<le> sint b"
  shows "\<exists>q. go_quo a b = Inr q \<and> sint q = sint a div sint b"
proof -
  define x where "x = sint a"
  define y where "y = sint b"
  have xy: "0 \<le> x" "1 \<le> y" "x < 2 ^ 63"
    using a b sint_go_int_range [of a] by (simp_all add: x_def y_def)
  have nz: "b \<noteq> 0" using b by auto
  have sd: "x sdiv y = x div y"
    using xy by (simp add: signed_divide_int_def sgn_if)
  have q0: "0 \<le> x div y" using xy by (simp add: pos_imp_zdiv_nonneg_iff)
  have "x div y \<le> x div 1" using xy by (intro zdiv_mono2) simp_all
  then have qle: "x div y \<le> x" by simp
  have "sint (word_of_int (x div y) :: go_int) = x div y"
    using q0 qle xy by (intro sint_word_of_int_go) simp_all
  then show ?thesis
    using nz sd by (simp add: go_quo_def x_def y_def)
qed

section \<open>Total pages of a listing\<close>

text \<open>
  Claim C5, as the code has it.  For a total that is not negative and a page size of at least
  one whose sum \<open>total + pageSize - 1\<close> still fits Go's 64-bit \<open>int\<close>, \<open>ToTodoListResponse\<close>
  does not panic and reports as \<open>TotalPages\<close> the ceiling of \<open>total / pageSize\<close>, and 1
  instead of 0 when the total is 0.
\<close>

theorem ToTodoListResponse_total_pages:
  assumes "0 \<le> sint total'" and "1 \<le> sint pageSize"
    and "sint total' + sint pageSize - 1 < 2 ^ 63"
  shows "\<exists>resp. ToTodoListResponse todos' total' page pageSize = Inr resp \<and>
           sint (TotalPages resp) =
             (if sint total' = 0 then 1 else \<lceil>real_of_int (sint total') / real_of_int (sint pageSize)\<rceil>)"
proof -
  define x where "x = sint total'"
  define y where "y = sint pageSize"
  have xy: "0 \<le> x" "1 \<le> y" using assms by (simp_all add: x_def y_def)
  have s: "sint (total' + pageSize - 1) = x + y - 1"
    unfolding x_def y_def using assms by (rule sint_add_sub_go)
  have "0 \<le> sint (total' + pageSize - 1)" using s xy by simp
  then obtain q where q: "go_quo (total' + pageSize - 1) pageSize = Inr q"
      and sq: "sint q = (x + y - 1) div y"
    using go_quo_nonneg [of "total' + pageSize - 1" pageSize] assms(2) s y_def by auto
  have c: "\<lceil>real_of_int x / real_of_int y\<rceil> = (x + y - 1) div y"
    using xy by (simp add: ceiling_divide_int)
  have z: "q = 0 \<longleftrightarrow> sint q = 0"
  proof
    assume "sint q = 0"
    then have "word_of_int (sint q) = (word_of_int 0 :: go_int)" by (simp only:)
    then show "q = 0" by simp
  qed simp
  have "(x + y - 1) div y = 0 \<longleftrightarrow> x + y - 1 < y"
    using xy by (auto simp add: zdiv_eq_0_iff)
  then have z2: "sint q = 0 \<longleftrightarrow> x = 0" using sq xy by auto
  show ?thesis
  proof (cases "x = 0")
    case True
    then have "q = 0" using z z2 by simp
    then show ?thesis using q True
      by (simp add: ToTodoListResponse_def x_def)
  next
    case False
    then have "q \<noteq> 0" using z z2 by simp
    then show ?thesis using q False sq c
      by (simp add: ToTodoListResponse_def x_def y_def)
  qed
qed

text \<open>The two listings of the specification: 10 records in pages of 5, and no record at all.\<close>

theorem ToTodoListResponse_total_pages_witness:
  "(\<exists>resp. ToTodoListResponse [] 10 1 5 = Inr resp \<and> sint (TotalPages resp) = 2) \<and>
   (\<exists>resp. ToTodoListResponse [] 0 1 10 = Inr resp \<and> sint (TotalPages resp) = 1)"
  using ToTodoListResponse_total_pages [of 10 5 "[]" 1] ToTodoListResponse_total_pages [of 0 10 "[]" 1]
  by simp

text \<open>
  Without the bound the sum wraps around: for a total of \<open>2^63 - 1\<close> and a page size of 2 the
  reported \<open>TotalPages\<close> is negative, where the ceiling of the quotient is \<open>2^62\<close>.
\<close>

theorem ToTodoListResponse_overflow_counterexample:
  "0 \<le> sint (9223372036854775807 :: go_int) \<and> 1 \<le> sint (2 :: go_int) \<and>
   ToTodoListResponse [] 9223372036854775807 1 2 =
     Inr \<lparr>Todos = [], Total = 9223372036854775807, Page = 1, PageSize = 2,
          TotalPages = word_of_int (- 4611686018427387904)\<rparr> \<and>
   sint (word_of_int (- 4611686018427387904) :: go_int) = - 4611686018427387904 \<and>
   \<lceil>real_of_int (sint (9223372036854775807 :: go_int)) / real_of_int (sint (2 :: go_int))\<rceil>
     = 4611686018427387904"
  by (simp add: ToTodoListResponse_def go_quo_def ToTodoResponseList_def signed_divide_int_def
        ceiling_divide_int)

section \<open>Reading one record\<close>

lemma find_None_iff_list_ex: "find P xs = None \<longleftrightarrow> \<not> list_ex P xs"
  by (induction xs) auto

lemma filter_absent: "\<not> list_ex P xs \<Longrightarrow> filter P xs = [] \<and> filter (\<lambda>x. \<not> P x) xs = xs"
  by (induction xs) auto

lemma GetByID_absent: "\<not> list_ex (\<lambda>r. ID r = i) (todos db) \<Longrightarrow> GetByID None i db = Inl ErrNotFound"
  using find_None_iff_list_ex [of "\<lambda>r. ID r = i" "todos db"]
  by (simp add: GetByID_def exec_select_by_id_def)

lemma GetByID_present:
  "find (\<lambda>r. ID r = i) (todos db) = Some r \<Longrightarrow> GetByID None i db = Inr r"
  by (simp add: GetByID_def exec_select_by_id_def)

lemma update_statement_none:
  "update_Title req = None \<Longrightarrow> update_Description req = None \<Longrightarrow> update_Completed req = None \<Longrightarrow>
     update_statement i req = None"
  by (simp add: update_statement_def update_assignments_def)

section \<open>An id that is not in the store\<close>

text \<open>
  Claim C3.  For an id that no row of the table has, and store calls that go through,
  \<open>GetByID\<close>, \<open>Update\<close> (whatever fields the request supplies) and \<open>Delete\<close> each fail with
  \<open>ErrNotFound\<close>; \<open>Update\<close> fails on its read, before any write, and the table it leaves
  is the table it found.  (\<open>Delete\<close> removes nothing, so its table is unchanged too.)
\<close>

theorem absent_id_NotFound:
  assumes "\<not> list_ex (\<lambda>r. ID r = i) (todos db)"
  shows "GetByID None i db = Inl ErrNotFound \<and>
         Update None update_fault now i req db = (Inl ErrNotFound, db) \<and>
         Delete None i db = (Some ErrNotFound, db)"
proof -
  have g: "GetByID None i db = Inl ErrNotFound" using assms by (rule GetByID_absent)
  have u: "Update None update_fault now i req db = (Inl ErrNotFound, db)"
    by (simp add: Update_def g)
  have d: "Delete None i db = (Some ErrNotFound, db)"
    using filter_absent [OF assms] by (simp add: Delete_def exec_delete_def)
  show ?thesis using g u d by simp
qed

theorem absent_id_NotFound_witness:
  "\<not> list_ex (\<lambda>r. ID r = 3) (todos two_rows) \<and>
   GetByID None 3 two_rows = Inl ErrNotFound \<and>
   Update None None 9 3 \<lparr>update_Title = Some ''x'', update_Description = None, update_Completed = Some True\<rparr> two_rows
     = (Inl ErrNotFound, two_rows) \<and>
   Delete None 3 two_rows = (Some ErrNotFound, two_rows)"
proof -
  have h: "\<not> list_ex (\<lambda>r. ID r = 3) (todos two_rows)"
    by (simp add: two_rows_def row1_def row2_def)
  show ?thesis
    using h absent_id_NotFound [OF h, of None 9 "\<lparr>update_Title = Some ''x'', update_Description = None, update_Completed = Some True\<rparr>"]
    by simp
qed

section \<open>An update that supplies no field\<close>

text \<open>
  Claim C2.  For an id the table has, a request with title, description and completed all
  absent, and a read that goes through, \<open>Update\<close> returns the stored record and the table
  it leaves is the table it found: nothing is written, and every field of every record,
  \<open>updated_at\<close> included, keeps its value.
\<close>

theorem Update_no_fields_unchanged:
  assumes "find (\<lambda>r. ID r = i) (todos db) = Some r"
    and "update_Title req = None" and "update_Description req = None" and "update_Completed req = None"
  shows "Update None update_fault now i req db = (Inr r, db) \<and> GetByID None i db = Inr r"
  using assms by (simp add: Update_def GetByID_present update_statement_none)

theorem Update_no_fields_unchanged_witness:
  "find (\<lambda>r. ID r = 2) (todos two_rows) = Some row2 \<and>
   Update None None 9 2 \<lparr>update_Title = None, update_Description = None, update_Completed = None\<rparr> two_rows
     = (Inr row2, two_rows) \<and>
   GetByID None 2 two_rows = Inr row2 \<and> UpdatedAt row2 = 8"
proof -
  have h: "find (\<lambda>r. ID r = 2) (todos two_rows) = Some row2"
    by (simp add: two_rows_def row1_def row2_def)
  show ?thesis
    using h Update_no_fields_unchanged [OF h, of "\<lparr>update_Title = None, update_Description = None, update_Completed = None\<rparr>" None 9]
    by (simp add: row2_def)
qed

section \<open>Listing\<close>

lemma sint_of_nat_go: "n < 2 ^ 63 \<Longrightarrow> sint (of_nat n :: go_int) = int n"
proof -
  assume n: "n < 2 ^ 63"
  have "(of_nat n :: go_int) = word_of_int (int n)" by simp
  moreover have "int n < 2 ^ 63" using n by (metis of_nat_less_iff of_nat_numeral of_nat_power)
  ultimately show ?thesis by (simp only: sint_word_of_int_go)
qed

lemma primary_key_ok_length:
  assumes "primary_key_ok db"
  shows "length (todos db) \<le> 2 ^ 32"
proof -
  have d: "distinct (map ID (todos db))" using assms by (simp add: primary_key_ok_def)
  have "set (map ID (todos db)) \<subseteq> {- 2147483648 .. 2147483647}"
    using assms by (auto simp: primary_key_ok_def list_all_iff)
  then have "card (set (map ID (todos db))) \<le> card {- 2147483648 .. 2147483647 :: int}"
    by (intro card_mono) simp_all
  moreover have "card (set (map ID (todos db))) = length (todos db)"
    using distinct_card [OF d] by simp
  ultimately show ?thesis by simp
qed

lemma order_by_created_at_desc_mset: "mset (order_by_created_at_desc rs) = mset rs"
  by (simp add: order_by_created_at_desc_def)

lemma order_by_created_at_desc_sorted:
  "sorted_wrt (\<lambda>a b. CreatedAt b \<le> CreatedAt a) (order_by_created_at_desc rs)"
proof -
  have "sorted (map (\<lambda>r. - CreatedAt r) (order_by_created_at_desc rs))"
    by (simp add: order_by_created_at_desc_def)
  then show ?thesis by (simp add: sorted_map)
qed

lemma slice_sorted:
  "sorted_wrt R xs \<Longrightarrow> sorted_wrt R (take n (drop m xs))"
  by (simp add: sorted_wrt_take sorted_wrt_drop)

lemma slice_subset: "set (take n (drop m xs)) \<subseteq> set xs"
  by (meson set_drop_subset set_take_subset subset_trans)

lemma List_Inr:
  assumes "List cf lf page pageSize completed db = Inr (ts, tot)"
  shows "cf = None \<and> lf = None \<and>
         0 \<le> sint ((spec_page page - 1) * spec_pageSize pageSize) \<and>
         ts = take (nat (sint (spec_pageSize pageSize)))
                (drop (nat (sint ((spec_page page - 1) * spec_pageSize pageSize)))
                   (order_by_created_at_desc (filter (where_completed completed) (todos db)))) \<and>
         tot = of_nat (length (filter (where_completed completed) (todos db)))"
  using assms
  by (auto simp: List_def exec_count_def exec_select_page_def spec_page_def spec_pageSize_def Let_def
           split: option.splits list_failure.splits if_splits sum.splits)

lemma List_returns:
  assumes "0 \<le> sint ((spec_page page - 1) * spec_pageSize pageSize)"
  shows "List None None page pageSize completed db =
           Inr (take (nat (sint (spec_pageSize pageSize)))
                  (drop (nat (sint ((spec_page page - 1) * spec_pageSize pageSize)))
                     (order_by_created_at_desc (filter (where_completed completed) (todos db)))),
                of_nat (length (filter (where_completed completed) (todos db))))"
proof -
  have "0 \<le> sint (spec_pageSize pageSize)" by (simp add: spec_pageSize_def)
  then show ?thesis using assms
    by (auto simp: List_def exec_count_def exec_select_page_def spec_page_def spec_pageSize_def Let_def)
qed

lemma spec_page_bounds: "1 \<le> sint (spec_page page)"
  by (simp add: spec_page_def)

lemma spec_pageSize_bounds: "1 \<le> sint (spec_pageSize pageSize) \<and> sint (spec_pageSize pageSize) \<le> 100"
  by (simp add: spec_pageSize_def)

lemma offset_no_wrap:
  assumes p: "1 \<le> sint (p :: go_int)" and s: "1 \<le> sint (ps :: go_int)" "sint ps \<le> 100"
    and b: "(sint p - 1) * sint ps < 2 ^ 63"
  shows "sint ((p - 1) * ps) = (sint p - 1) * sint ps"
proof -
  have "(p - 1) * ps = word_of_int ((sint p - 1) * sint ps)" by simp
  moreover have "0 \<le> (sint p - 1) * sint ps" using p s by simp
  ultimately show ?thesis using b by (simp only: sint_word_of_int_go)
qed


lemma spec_page_idem: "spec_page (spec_page p) = spec_page p"
  by (simp add: spec_page_def)

lemma spec_pageSize_idem: "spec_pageSize (spec_pageSize p) = spec_pageSize p"
  by (simp add: spec_pageSize_def)

lemma List_spec:
  "List cf lf page pageSize completed db =
     (case exec_count cf completed db of
        Inl err \<Rightarrow> Inl (Wrapped ''failed to count todos'' err)
      | Inr total' \<Rightarrow>
          (case lf of
             Some (AtQuery f) \<Rightarrow> Inl (Wrapped ''failed to list todos'' (Failure f))
           | Some (AtScan f) \<Rightarrow> Inl (Wrapped ''failed to scan todo'' (Failure f))
           | Some (AtRowsErr f) \<Rightarrow> Inl (Wrapped ''error iterating todos'' (Failure f))
           | None \<Rightarrow>
               (case exec_select_page completed (spec_pageSize pageSize)
                       ((spec_page page - 1) * spec_pageSize pageSize) db of
                  Inl err \<Rightarrow> Inl (Wrapped ''error iterating todos'' err)
                | Inr todos' \<Rightarrow> Inr (todos', total'))))"
proof -
  have "(if sint pageSize < 1 \<or> 100 < sint pageSize then 10 else pageSize) = spec_pageSize pageSize"
    by (auto simp: spec_pageSize_def)
  moreover have "(if sint page < 1 then 1 else page) = spec_page page"
    by (simp add: spec_page_def)
  ultimately show ?thesis
    by (simp only: List_def Let_def)
qed

section \<open>Normalization of page and page size\<close>

text \<open>
  Claim C4, as the code has it.  \<open>List\<close> coerces its inputs before it queries: a page below
  1 becomes 1 and a page size outside 1 to 100 becomes 10, so that calling it with the raw
  or with the normalized values is the same call; and \<open>List(0, 500, f)\<close> is
  \<open>List(1, 10, f)\<close>.  Whenever the product \<open>(page - 1) * pageSize\<close> of the normalized values
  is below \<open>2^63\<close>, the largest value of Go's \<open>int\<close> being \<open>2^63 - 1\<close>, that product is the
  offset of the slice: a call whose store calls go through returns, and every returned
  sequence is the \<open>pageSize\<close> rows from that offset on.
\<close>

theorem List_normalizes:
  "List cf lf page pageSize completed db =
     List cf lf (spec_page page) (spec_pageSize pageSize) completed db \<and>
   1 \<le> sint (spec_page page) \<and>
   1 \<le> sint (spec_pageSize pageSize) \<and> sint (spec_pageSize pageSize) \<le> 100 \<and>
   ((sint (spec_page page) - 1) * sint (spec_pageSize pageSize) < 2 ^ 63 \<longrightarrow>
      (\<exists>tot. List None None page pageSize completed db =
         Inr (take (nat (sint (spec_pageSize pageSize)))
                (drop (nat ((sint (spec_page page) - 1) * sint (spec_pageSize pageSize)))
                   (order_by_created_at_desc (filter (where_completed completed) (todos db)))),
              tot)) \<and>
      (\<forall>ts tot. List cf lf page pageSize completed db = Inr (ts, tot) \<longrightarrow>
         ts = take (nat (sint (spec_pageSize pageSize)))
                (drop (nat ((sint (spec_page page) - 1) * sint (spec_pageSize pageSize)))
                   (order_by_created_at_desc (filter (where_completed completed) (todos db)))))) \<and>
   List cf lf 0 500 completed db = List cf lf 1 10 completed db"
proof -
  let ?p = "spec_page page"
  let ?s = "spec_pageSize pageSize"
  let ?rows = "order_by_created_at_desc (filter (where_completed completed) (todos db))"
  have a: "List cf lf page pageSize completed db = List cf lf ?p ?s completed db"
    by (simp only: List_spec spec_page_idem spec_pageSize_idem)
  have c: "(\<exists>tot. List None None page pageSize completed db =
              Inr (take (nat (sint ?s)) (drop (nat ((sint ?p - 1) * sint ?s)) ?rows), tot)) \<and>
           (\<forall>ts tot. List cf lf page pageSize completed db = Inr (ts, tot) \<longrightarrow>
              ts = take (nat (sint ?s)) (drop (nat ((sint ?p - 1) * sint ?s)) ?rows))"
    if b: "(sint ?p - 1) * sint ?s < 2 ^ 63"
  proof -
    have o: "sint ((?p - 1) * ?s) = (sint ?p - 1) * sint ?s"
      using spec_page_bounds [of page] spec_pageSize_bounds [of pageSize] b
      by (intro offset_no_wrap) simp_all
    have "0 \<le> (sint ?p - 1) * sint ?s"
      using spec_page_bounds [of page] spec_pageSize_bounds [of pageSize] by simp
    then have "0 \<le> sint ((?p - 1) * ?s)" by (simp only: o)
    then have r: "\<exists>tot. List None None page pageSize completed db =
              Inr (take (nat (sint ?s)) (drop (nat ((sint ?p - 1) * sint ?s)) ?rows), tot)"
      using List_returns [of page pageSize completed db] by (simp only: o) blast
    have "ts = take (nat (sint ?s)) (drop (nat ((sint ?p - 1) * sint ?s)) ?rows)"
      if "List cf lf page pageSize completed db = Inr (ts, tot)" for ts tot
      using List_Inr [OF that] by (simp only: o)
    then show ?thesis using r by blast
  qed
  have "spec_page 0 = 1" "spec_pageSize 500 = 10" "spec_page 1 = 1" "spec_pageSize 10 = 10"
    by (simp_all add: spec_page_def spec_pageSize_def)
  then have d: "List cf lf 0 500 completed db = List cf lf 1 10 completed db"
    by (simp only: List_spec)
  show ?thesis
    using a c d spec_page_bounds [of page] spec_pageSize_bounds [of pageSize] by blast
qed

lemma List_two_rows:
  "List None None 1 10 None two_rows = Inr ([row2, row1], 2)"
  "List None None 1 10 (Some True) two_rows = Inr ([row2], 1)"
  "List None None 1 10 (Some False) two_rows = Inr ([row1], 1)"
  by (simp_all add: List_def exec_count_def exec_select_page_def order_by_created_at_desc_def
        where_completed_def two_rows_def row1_def row2_def)

theorem List_normalizes_witness:
  "List None None 0 500 None two_rows = Inr ([row2, row1], 2) \<and>
   List None None 1 10 None two_rows = Inr ([row2, row1], 2) \<and>
   spec_page 0 = 1 \<and> spec_pageSize 500 = 10 \<and>
   (sint (spec_page 0) - 1) * sint (spec_pageSize 500) < 2 ^ 63 \<and>
   [row2, row1] =
     take (nat (sint (spec_pageSize 500)))
       (drop (nat ((sint (spec_page 0) - 1) * sint (spec_pageSize 500)))
          (order_by_created_at_desc (filter (where_completed None) (todos two_rows))))"
proof -
  have n: "spec_page 0 = 1" "spec_pageSize 500 = 10"
    by (simp_all add: spec_page_def spec_pageSize_def)
  have b: "(sint (spec_page 0) - 1) * sint (spec_pageSize 500) < 2 ^ 63"
    by (simp add: n)
  note T = List_normalizes [of None None 0 500 None two_rows]
  from T have e: "List None None 0 500 None two_rows = List None None 1 10 None two_rows"
    by blast
  have l: "List None None 0 500 None two_rows = Inr ([row2, row1], 2)"
    by (simp only: e List_two_rows(1))
  from T b l have sl: "[row2, row1] =
     take (nat (sint (spec_pageSize 500)))
       (drop (nat ((sint (spec_page 0) - 1) * sint (spec_pageSize 500)))
          (order_by_created_at_desc (filter (where_completed None) (todos two_rows))))"
    by blast
  show ?thesis
    using n b l sl List_two_rows(1) by blast
qed

text \<open>
  Beyond the bound the product wraps around.  For page \<open>2^62 + 1\<close> and page size 4, both left
  as they are by the normalization, \<open>(page - 1) * pageSize\<close> is \<open>2^64\<close>; the offset \<open>List\<close>
  uses is 0, and it returns the first rows of a table of two, where the slice at offset
  \<open>2^64\<close> is empty.
\<close>

theorem List_offset_wraps_counterexample:
  "spec_page 4611686018427387905 = 4611686018427387905 \<and> spec_pageSize 4 = 4 \<and>
   (sint (4611686018427387905 :: go_int) - 1) * sint (4 :: go_int) = 18446744073709551616 \<and>
   sint ((4611686018427387905 - 1) * 4 :: go_int) = 0 \<and>
   List None None 4611686018427387905 4 None two_rows = Inr ([row2, row1], 2) \<and>
   take 4 (drop (nat 18446744073709551616)
             (order_by_created_at_desc (filter (where_completed None) (todos two_rows)))) = []"
  by (simp add: spec_page_def spec_pageSize_def List_def exec_count_def exec_select_page_def
        order_by_created_at_desc_def where_completed_def two_rows_def row1_def row2_def)

section \<open>Order, filter and total of a listing\<close>

text \<open>
  Claim C6, as the code has it.  For every table that respects its primary key and every
  call of \<open>List\<close> that returns: the returned sequence is in the order of \<open>created_at\<close>
  descending and holds matching records only, so with a filter present every returned
  record has the filter's \<open>completed\<close> value; the returned total is the number of all
  matching records of the table, whatever the page; and whenever \<open>(page - 1) * pageSize\<close> of
  the normalized values is below \<open>2^63\<close>, the returned sequence is the requested page: the
  \<open>pageSize\<close> records from offset \<open>(page - 1) * pageSize\<close> on of the matching records in
  that order.
\<close>

theorem List_ordered_filtered_counted:
  assumes "primary_key_ok db" and "List cf lf page pageSize completed db = Inr (ts, tot)"
  shows "sorted_wrt (\<lambda>a b. CreatedAt b \<le> CreatedAt a) ts \<and>
         set ts \<subseteq> set (filter (\<lambda>r. case completed of None \<Rightarrow> True | Some c \<Rightarrow> Completed r = c) (todos db)) \<and>
         (\<forall>c. completed = Some c \<longrightarrow> (\<forall>t \<in> set ts. Completed t = c)) \<and>
         sint tot =
           int (length (filter (\<lambda>r. case completed of None \<Rightarrow> True | Some c \<Rightarrow> Completed r = c) (todos db))) \<and>
         ((sint (spec_page page) - 1) * sint (spec_pageSize pageSize) < 2 ^ 63 \<longrightarrow>
            (\<exists>matching.
               mset matching = mset (filter (\<lambda>r. case completed of None \<Rightarrow> True | Some c \<Rightarrow> Completed r = c) (todos db)) \<and>
               sorted_wrt (\<lambda>a b. CreatedAt b \<le> CreatedAt a) matching \<and>
               ts = take (nat (sint (spec_pageSize pageSize)))
                      (drop (nat ((sint (spec_page page) - 1) * sint (spec_pageSize pageSize))) matching)))"
proof -
  let ?P = "\<lambda>r. case completed of None \<Rightarrow> True | Some c \<Rightarrow> Completed r = c"
  let ?all = "order_by_created_at_desc (filter ?P (todos db))"
  let ?p = "spec_page page"
  let ?s = "spec_pageSize pageSize"
  have P: "where_completed completed = ?P" by (rule ext) (simp add: where_completed_def)
  have ts: "ts = take (nat (sint ?s)) (drop (nat (sint ((?p - 1) * ?s))) ?all)"
    and tot: "tot = of_nat (length (filter ?P (todos db)))"
    using List_Inr [OF assms(2)] by (simp_all add: P)
  have m: "mset ?all = mset (filter ?P (todos db))" by (rule order_by_created_at_desc_mset)
  have s: "sorted_wrt (\<lambda>a b. CreatedAt b \<le> CreatedAt a) ?all" by (rule order_by_created_at_desc_sorted)
  have s': "sorted_wrt (\<lambda>a b. CreatedAt b \<le> CreatedAt a) ts"
    unfolding ts using s by (rule slice_sorted)
  have "set ts \<subseteq> set ?all" unfolding ts by (rule slice_subset)
  also have "set ?all = set (filter ?P (todos db))" using m by (rule mset_eq_setD)
  finally have sub: "set ts \<subseteq> set (filter ?P (todos db))" .
  then have f: "\<forall>c. completed = Some c \<longrightarrow> (\<forall>t \<in> set ts. Completed t = c)" by auto
  have "length (filter ?P (todos db)) \<le> length (todos db)" by simp
  also have "\<dots> \<le> 2 ^ 32" using assms(1) by (rule primary_key_ok_length)
  also have "\<dots> < (2 ^ 63 :: nat)" by simp
  finally have n: "sint tot = int (length (filter ?P (todos db)))"
    unfolding tot by (rule sint_of_nat_go)
  have pg: "\<exists>matching. mset matching = mset (filter ?P (todos db)) \<and>
              sorted_wrt (\<lambda>a b. CreatedAt b \<le> CreatedAt a) matching \<and>
              ts = take (nat (sint ?s)) (drop (nat ((sint ?p - 1) * sint ?s)) matching)"
    if b: "(sint ?p - 1) * sint ?s < 2 ^ 63"
  proof -
    have o: "sint ((?p - 1) * ?s) = (sint ?p - 1) * sint ?s"
      using spec_page_bounds [of page] spec_pageSize_bounds [of pageSize] b
      by (intro offset_no_wrap) simp_all
    have "ts = take (nat (sint ?s)) (drop (nat ((sint ?p - 1) * sint ?s)) ?all)"
      using ts by (simp only: o)
    then show ?thesis using m s by blast
  qed
  show ?thesis using s' sub f n pg by blast
qed

theorem List_ordered_filtered_counted_witness:
  "primary_key_ok two_rows \<and> List None None 1 10 (Some True) two_rows = Inr ([row2], 1) \<and>
   (sint (spec_page 1) - 1) * sint (spec_pageSize 10) < 2 ^ 63 \<and>
   Completed row2 = True \<and>
   sint (1 :: go_int) = int (length (filter (\<lambda>r. Completed r = True) (todos two_rows)))"
proof -
  have h: "primary_key_ok two_rows"
    by (simp add: primary_key_ok_def two_rows_def row1_def row2_def)
  have b: "(sint (spec_page 1) - 1) * sint (spec_pageSize 10) < 2 ^ 63"
    by (simp add: spec_page_def spec_pageSize_def)
  show ?thesis
    using h b List_two_rows(2) List_ordered_filtered_counted [OF h List_two_rows(2)]
    by (simp add: two_rows_def row1_def row2_def)
qed

text \<open>
  Beyond the bound the returned sequence need not be the requested page.  Page \<open>2^62 + 1\<close> in
  pages of 4 of the one completed record of a table of two is empty, as its offset \<open>2^64\<close>
  lies beyond the record; \<open>List\<close>, whose offset wraps to 0, returns the record.
\<close>

theorem List_page_wraps_counterexample:
  "primary_key_ok two_rows \<and>
   spec_page 4611686018427387905 = 4611686018427387905 \<and> spec_pageSize 4 = 4 \<and>
   List None None 4611686018427387905 4 (Some True) two_rows = Inr ([row2], 1) \<and>
   order_by_created_at_desc (filter (\<lambda>r. Completed r = True) (todos two_rows)) = [row2] \<and>
   take (nat (sint (4 :: go_int)))
     (drop (nat ((sint (4611686018427387905 :: go_int) - 1) * sint (4 :: go_int))) [row2]) = []"
  by (simp add: primary_key_ok_def spec_page_def spec_pageSize_def List_def exec_count_def
        exec_select_page_def order_by_created_at_desc_def where_completed_def two_rows_def
        row1_def row2_def)

section \<open>The completed parameter of the list endpoint\<close>

text \<open>
  Claim C10.  For every non-empty value \<open>s\<close> of the query parameter \<open>completed\<close>, the
  handler passes the filter \<open>Some (s = "true")\<close>: it has no branch that rejects a value, and
  any value other than \<open>true\<close> makes a listing that returns hold only records that are
  not completed.
\<close>

theorem ListTodos_completed_filter:
  assumes "q ''completed'' = Some s" and "s \<noteq> []"
  shows "snd (snd (ListTodos_args Atoi q)) = Some (s = ''true'') \<and>
         (s \<noteq> ''true'' \<longrightarrow>
            (\<forall>cf lf page pageSize db ts tot.
               List cf lf page pageSize (snd (snd (ListTodos_args Atoi q))) db = Inr (ts, tot) \<longrightarrow>
               (\<forall>t \<in> set ts. Completed t = False)))"
proof -
  have a: "snd (snd (ListTodos_args Atoi q)) = Some (s = ''true'')"
    using assms by (simp add: ListTodos_args_def Query_def Let_def)
  have "\<forall>t \<in> set ts. Completed t = False"
    if "List cf lf page pageSize (Some False) db = Inr (ts, tot)" for cf lf page pageSize db ts tot
  proof -
    have "set ts \<subseteq> set (order_by_created_at_desc (filter (where_completed (Some False)) (todos db)))"
      using List_Inr [OF that] slice_subset by metis
    also have "\<dots> = set (filter (where_completed (Some False)) (todos db))"
      using order_by_created_at_desc_mset by (rule mset_eq_setD)
    finally show ?thesis by (auto simp: where_completed_def)
  qed
  then show ?thesis using a by auto
qed

theorem ListTodos_completed_filter_witness:
  "[''completed'' \<mapsto> ''banana''] ''completed'' = Some ''banana'' \<and> ''banana'' \<noteq> [] \<and>
   ListTodos_args Atoi_defaults [''completed'' \<mapsto> ''banana''] = (1, 10, Some False) \<and>
   snd (snd (ListTodos_args Atoi_defaults [''completed'' \<mapsto> ''True''])) = Some False \<and>
   snd (snd (ListTodos_args Atoi_defaults [''completed'' \<mapsto> ''1''])) = Some False \<and>
   snd (snd (ListTodos_args Atoi_defaults [''completed'' \<mapsto> ''true''])) = Some True \<and>
   List None None 1 10 (Some False) two_rows = Inr ([row1], 1) \<and>
   Completed row1 = False"
  using ListTodos_completed_filter [of "[''completed'' \<mapsto> ''banana'']" "''banana''" Atoi_defaults]
    List_two_rows(3)
  by (simp add: ListTodos_args_def Query_def DefaultQuery_def row1_def Atoi_defaults_def)

section \<open>The update statement\<close>

lemma sprintf_d_small:
  "sprintf_d 1 = ''1''" "sprintf_d 2 = ''2''" "sprintf_d 3 = ''3''" "sprintf_d 4 = ''4''"
  "sprintf_d (Suc 0) = ''1''" "sprintf_d (Suc (Suc 0)) = ''2''"
  "sprintf_d (Suc (Suc (Suc 0))) = ''3''" "sprintf_d (Suc (Suc (Suc (Suc 0)))) = ''4''"
  by (simp_all add: digit_char_def)

declare sprintf_d.simps [simp del]

lemma supplied_fields_Nil:
  "supplied_fields req = [] \<longleftrightarrow>
     update_Title req = None \<and> update_Description req = None \<and> update_Completed req = None"
  by (simp add: supplied_fields_def split: option.splits)

lemma update_statement_supplied:
  assumes "supplied_fields req \<noteq> []"
  shows "update_statement i req =
           Some (spec_update_query (map fst (supplied_fields req)),
                 map snd (supplied_fields req) @ [SqlInt i])"
  using assms
  by (cases "update_Title req"; cases "update_Description req"; cases "update_Completed req")
     (simp_all add: supplied_fields_def update_statement_def update_assignments_def
        update_query_def spec_update_query_def sprintf_d_small)

lemma parse_update_spec:
  "parse_update (spec_update_query [ColTitle]) = Some ([(ColTitle, 1)], 2)"
  "parse_update (spec_update_query [ColDescription]) = Some ([(ColDescription, 1)], 2)"
  "parse_update (spec_update_query [ColCompleted]) = Some ([(ColCompleted, 1)], 2)"
  "parse_update (spec_update_query [ColTitle, ColDescription]) =
     Some ([(ColTitle, 1), (ColDescription, 2)], 3)"
  "parse_update (spec_update_query [ColTitle, ColCompleted]) =
     Some ([(ColTitle, 1), (ColCompleted, 2)], 3)"
  "parse_update (spec_update_query [ColDescription, ColCompleted]) =
     Some ([(ColDescription, 1), (ColCompleted, 2)], 3)"
  "parse_update (spec_update_query [ColTitle, ColDescription, ColCompleted]) =
     Some ([(ColTitle, 1), (ColDescription, 2), (ColCompleted, 3)], 4)"
  by code_simp+

lemma parse_update_supplied:
  assumes "supplied_fields req \<noteq> []"
  shows "parse_update (spec_update_query (map fst (supplied_fields req))) =
           Some (zip (map fst (supplied_fields req)) [1..<Suc (length (supplied_fields req))],
                 Suc (length (supplied_fields req)))"
  using assms
  by (cases "update_Title req"; cases "update_Description req"; cases "update_Completed req")
     (simp_all add: supplied_fields_def parse_update_spec upt_rec)


lemma supplied_fields_length: "length (supplied_fields req) \<le> 3"
  by (simp add: supplied_fields_def split: option.splits)

text \<open>
  Claim C7.  For every update request with \<open>k \<ge> 1\<close> supplied fields, the statement
  \<open>Update\<close> builds is the update of exactly the supplied columns: read back, its
  assignments are the supplied columns in the order they were appended, the j-th with
  placeholder \<open>$j\<close>, and its \<open>WHERE\<close> has placeholder \<open>$(k+1)\<close>; the argument list has
  length \<open>k + 1\<close>, the argument at the position placeholder \<open>$j\<close> names is the value of the
  j-th supplied field, and the one at \<open>$(k+1)\<close> is the id.
\<close>

theorem update_statement_positional:
  assumes "supplied_fields req \<noteq> []"
  shows "update_statement i req =
           Some (spec_update_query (map fst (supplied_fields req)),
                 map snd (supplied_fields req) @ [SqlInt i]) \<and>
         parse_update (spec_update_query (map fst (supplied_fields req))) =
           Some (zip (map fst (supplied_fields req)) [1..<Suc (length (supplied_fields req))],
                 Suc (length (supplied_fields req))) \<and>
         length (map snd (supplied_fields req) @ [SqlInt i]) = Suc (length (supplied_fields req)) \<and>
         (\<forall>j < length (supplied_fields req).
            zip (map fst (supplied_fields req)) [1..<Suc (length (supplied_fields req))] ! j
              = (fst (supplied_fields req ! j), Suc j) \<and>
            (map snd (supplied_fields req) @ [SqlInt i]) ! (Suc j - 1) = snd (supplied_fields req ! j)) \<and>
         (map snd (supplied_fields req) @ [SqlInt i]) ! (Suc (length (supplied_fields req)) - 1) = SqlInt i"
proof -
  let ?fs = "supplied_fields req"
  let ?args = "map snd ?fs @ [SqlInt i]"
  have a: "update_statement i req = Some (spec_update_query (map fst ?fs), ?args)"
    using assms by (rule update_statement_supplied)
  have b: "parse_update (spec_update_query (map fst ?fs)) =
             Some (zip (map fst ?fs) [1..<Suc (length ?fs)], Suc (length ?fs))"
    using assms by (rule parse_update_supplied)
  have c: "zip (map fst ?fs) [1..<Suc (length ?fs)] ! j = (fst (?fs ! j), Suc j) \<and>
           ?args ! (Suc j - 1) = snd (?fs ! j)" if "j < length ?fs" for j
    using that by (auto simp add: nth_append)
  have d: "?args ! (Suc (length ?fs) - 1) = SqlInt i"
    by (simp add: nth_append)
  show ?thesis using a b c d by simp
qed

theorem update_statement_positional_witness:
  "supplied_fields \<lparr>update_Title = Some ''x'', update_Description = None, update_Completed = Some True\<rparr>
     = [(ColTitle, SqlText ''x''), (ColCompleted, SqlBool True)] \<and>
   update_statement 7 \<lparr>update_Title = Some ''x'', update_Description = None, update_Completed = Some True\<rparr> =
     Some (''UPDATE todos SET title = $1, completed = $2 WHERE id = $3 RETURNING id, title, description, completed, created_at, updated_at'',
           [SqlText ''x'', SqlBool True, SqlInt 7]) \<and>
   parse_update ''UPDATE todos SET title = $1, completed = $2 WHERE id = $3 RETURNING id, title, description, completed, created_at, updated_at''
     = Some ([(ColTitle, 1), (ColCompleted, 2)], 3)"
  using update_statement_positional [of "\<lparr>update_Title = Some ''x'', update_Description = None, update_Completed = Some True\<rparr>" 7]
  by (simp add: supplied_fields_def spec_update_query_def sprintf_d_small upt_rec)


section \<open>Applying an update\<close>

lemma update_where_total:
  "(\<And>x. P x \<Longrightarrow> f x = Some (g x)) \<Longrightarrow>
     update_where P f xs = Some (map (\<lambda>x. if P x then g x else x) xs)"
  by (induction xs) simp_all

lemma find_map_same_id:
  assumes "find (\<lambda>r. ID r = i) xs = Some r" and "\<And>x. ID (g x) = ID x"
  shows "find (\<lambda>r. ID r = i) (map (\<lambda>x. if ID x = i then g x else x) xs) = Some (g r)"
  using assms by (induction xs) (auto split: if_splits)

lemma spec_partial_update_ID: "ID (spec_partial_update req now x) = ID x"
  by (simp add: spec_partial_update_def split: option.splits)

lemma supplied_checks:
  assumes "supplied_fields req \<noteq> []"
  shows "distinct (map fst (zip (map fst (supplied_fields req)) [1..<Suc (length (supplied_fields req))]))"
    and "params_match (Suc (length (supplied_fields req)) #
            map snd (zip (map fst (supplied_fields req)) [1..<Suc (length (supplied_fields req))]))
           (map snd (supplied_fields req) @ [SqlInt i])"
    and "list_all (\<lambda>(c, n). column_accepts c ((map snd (supplied_fields req) @ [SqlInt i]) ! (n - 1)))
           (zip (map fst (supplied_fields req)) [1..<Suc (length (supplied_fields req))])"
  using assms
  by (cases "update_Title req"; cases "update_Description req"; cases "update_Completed req";
      simp add: supplied_fields_def params_match_def upt_rec)+

lemma set_columns_supplied:
  assumes "case update_Title req of None \<Rightarrow> True | Some t \<Rightarrow> length t \<le> 255"
  shows "map_option (update_updated_at_column now)
           (set_columns (zip (map fst (supplied_fields req)) [1..<Suc (length (supplied_fields req))])
              (map snd (supplied_fields req) @ [SqlInt i]) x)
         = Some (spec_partial_update req now x)"
  using assms
  by (cases "update_Title req"; cases "update_Description req"; cases "update_Completed req")
     (simp_all add: supplied_fields_def upt_rec varchar255_def spec_partial_update_def
        update_updated_at_column_def)

lemma exec_update_supplied:
  assumes r: "find (\<lambda>r. ID r = i) (todos db) = Some r"
    and s: "supplied_fields req \<noteq> []"
    and t: "case update_Title req of None \<Rightarrow> True | Some t \<Rightarrow> length t \<le> 255"
  shows "exec_update None now (spec_update_query (map fst (supplied_fields req)))
           (map snd (supplied_fields req) @ [SqlInt i]) db
         = (Inr (spec_partial_update req now r),
            db\<lparr>todos := map (\<lambda>x. if ID x = i then spec_partial_update req now x else x) (todos db)\<rparr>)"
proof -
  let ?fs = "supplied_fields req"
  let ?sets = "zip (map fst ?fs) [1..<Suc (length ?fs)]"
  let ?args = "map snd ?fs @ [SqlInt i]"
  let ?rows = "map (\<lambda>x. if ID x = i then spec_partial_update req now x else x) (todos db)"
  have p: "parse_update (spec_update_query (map fst ?fs)) = Some (?sets, Suc (length ?fs))"
    using s by (rule parse_update_supplied)
  have k: "?args ! (Suc (length ?fs) - 1) = SqlInt i" by (simp add: nth_append)
  have u: "update_where (\<lambda>x. ID x = i)
             (\<lambda>x. map_option (update_updated_at_column now) (set_columns ?sets ?args x)) (todos db)
           = Some ?rows"
    by (rule update_where_total) (rule set_columns_supplied [OF t])
  have f: "find (\<lambda>r. ID r = i) ?rows = Some (spec_partial_update req now r)"
    using r by (rule find_map_same_id) (rule spec_partial_update_ID)
  show ?thesis
    unfolding exec_update_def
    using p k u f supplied_checks(1) [OF s] supplied_checks(2) [OF s, of i] supplied_checks(3) [OF s, of i]
    by (simp del: upt_Suc)
qed

text \<open>
  Claim C1.  For every id the table has and every update request that supplies at least
  one field (a supplied title within the 255 characters of its column), with both store
  calls going through: \<open>Update\<close> rewrites the record in one statement, each supplied field
  taking the supplied value, each omitted field keeping its own and \<open>updated_at\<close> becoming
  the instant of the statement; rows of another id are untouched; and the record it returns
  is the record now stored, as a read of the id afterwards gives it.
\<close>

theorem Update_applies_supplied_fields:
  assumes "find (\<lambda>r. ID r = i) (todos db) = Some r"
    and "update_Title req \<noteq> None \<or> update_Description req \<noteq> None \<or> update_Completed req \<noteq> None"
    and "case update_Title req of None \<Rightarrow> True | Some t \<Rightarrow> length t \<le> 255"
  shows "Update None None now i req db =
           (Inr (spec_partial_update req now r),
            db\<lparr>todos := map (\<lambda>x. if ID x = i then spec_partial_update req now x else x) (todos db)\<rparr>) \<and>
         GetByID None i
           (db\<lparr>todos := map (\<lambda>x. if ID x = i then spec_partial_update req now x else x) (todos db)\<rparr>)
           = Inr (spec_partial_update req now r)"
proof -
  have s: "supplied_fields req \<noteq> []" using assms(2) by (simp add: supplied_fields_Nil)
  have g: "GetByID None i db = Inr r" using assms(1) by (rule GetByID_present)
  have u: "update_statement i req =
             Some (spec_update_query (map fst (supplied_fields req)),
                   map snd (supplied_fields req) @ [SqlInt i])"
    using s by (rule update_statement_supplied)
  have e: "exec_update None now (spec_update_query (map fst (supplied_fields req)))
             (map snd (supplied_fields req) @ [SqlInt i]) db
           = (Inr (spec_partial_update req now r),
              db\<lparr>todos := map (\<lambda>x. if ID x = i then spec_partial_update req now x else x) (todos db)\<rparr>)"
    using assms(1) s assms(3) by (rule exec_update_supplied)
  have f: "find (\<lambda>r. ID r = i)
             (map (\<lambda>x. if ID x = i then spec_partial_update req now x else x) (todos db))
           = Some (spec_partial_update req now r)"
    using assms(1) by (rule find_map_same_id) (rule spec_partial_update_ID)
  have p: "GetByID None i
             (db\<lparr>todos := map (\<lambda>x. if ID x = i then spec_partial_update req now x else x) (todos db)\<rparr>)
           = Inr (spec_partial_update req now r)"
    by (rule GetByID_present) (simp add: f)
  show ?thesis using g u e p by (simp add: Update_def)
qed

theorem Update_applies_supplied_fields_witness:
  "find (\<lambda>r. ID r = 1) (todos two_rows) = Some row1 \<and>
   Update None None 9 1 \<lparr>update_Title = None, update_Description = None, update_Completed = Some True\<rparr> two_rows
     = (Inr \<lparr>ID = 1, Title = ''Buy milk'', Description = [], Completed = True,
             CreatedAt = 5, UpdatedAt = 9\<rparr>,
        \<lparr>todos = [\<lparr>ID = 1, Title = ''Buy milk'', Description = [], Completed = True,
                     CreatedAt = 5, UpdatedAt = 9\<rparr>, row2],
         todos_id_seq = 2\<rparr>)"
proof -
  have h: "find (\<lambda>r. ID r = 1) (todos two_rows) = Some row1"
    by (simp add: two_rows_def row1_def row2_def)
  show ?thesis
    using h Update_applies_supplied_fields [OF h,
        of "\<lparr>update_Title = None, update_Description = None, update_Completed = Some True\<rparr>" 9]
    by (simp add: spec_partial_update_def two_rows_def row1_def row2_def)
qed

section \<open>Ids over a sequence of calls\<close>

lemma set_column_ID: "set_column c v x = Some y \<Longrightarrow> ID y = ID x"
  by (cases c; cases v) (auto simp: varchar255_def split: if_splits)

lemma set_columns_ID: "set_columns sets args x = Some y \<Longrightarrow> ID y = ID x"
proof (induction sets arbitrary: x)
  case Nil
  then show ?case by simp
next
  case (Cons a sets)
  obtain c n where a: "a = (c, n)" by (cases a)
  from Cons.prems obtain z where z: "set_column c (args ! (n - 1)) x = Some z"
    and y: "set_columns sets args z = Some y"
    by (auto simp: a split: option.splits)
  show ?case using Cons.IH [OF y] set_column_ID [OF z] by simp
qed

lemma update_where_ID:
  assumes "update_where P f xs = Some ys" and "\<And>x y. f x = Some y \<Longrightarrow> ID y = ID x"
  shows "map ID ys = map ID xs"
  using assms
proof (induction xs arbitrary: ys)
  case Nil
  then show ?case by simp
next
  case (Cons x xs)
  then show ?case by (auto split: if_splits option.splits)
qed

lemma exec_update_ids:
  assumes "exec_update fault now query args db = (res, db')"
  shows "map ID (todos db') = map ID (todos db) \<and> todos_id_seq db' = todos_id_seq db"
proof -
  have u: "map ID ys = map ID (todos db)"
    if "update_where P (\<lambda>x. map_option (update_updated_at_column now) (set_columns sets args x))
          (todos db) = Some ys" for P sets ys
    using that
    by (rule update_where_ID) (auto simp: update_updated_at_column_def dest: set_columns_ID)
  show ?thesis
    using assms u
    by (auto simp: exec_update_def reject_def
             split: option.splits if_splits sql_value.splits prod.splits)
qed

lemma ids_issued_map_ID:
  "map ID (todos db') = map ID (todos db) \<Longrightarrow> todos_id_seq db' = todos_id_seq db \<Longrightarrow>
     ids_issued db' = ids_issued db"
proof -
  assume m: "map ID (todos db') = map ID (todos db)" and s: "todos_id_seq db' = todos_id_seq db"
  have A: "ids_issued d \<longleftrightarrow> list_all (\<lambda>i. i \<le> todos_id_seq d) (map ID (todos d))" for d
    by (simp add: ids_issued_def list.pred_map comp_def)
  show ?thesis unfolding A m s ..
qed

lemma Update_ids:
  assumes "Update gf uf now i req db = (res, db')"
  shows "ids_issued db' = ids_issued db \<and> todos_id_seq db' = todos_id_seq db"
proof (cases "GetByID gf i db")
  case (Inl e)
  then show ?thesis using assms by (simp add: Update_def)
next
  case (Inr existing)
  show ?thesis
  proof (cases "update_statement i req")
    case None
    then show ?thesis using assms Inr by (simp add: Update_def)
  next
    case (Some qa)
    obtain q a where qa: "qa = (q, a)" by (cases qa)
    obtain r1 d1 where e: "exec_update uf now q a db = (r1, d1)" by (cases "exec_update uf now q a db")
    have "db' = d1" using assms Inr Some qa e by (cases r1) (simp_all add: Update_def)
    then show ?thesis using exec_update_ids [OF e] ids_issued_map_ID by blast
  qed
qed

lemma Delete_ids:
  assumes "Delete f i db = (res, db')" and "ids_issued db"
  shows "ids_issued db' \<and> todos_id_seq db' = todos_id_seq db"
  using assms
  by (auto simp: Delete_def exec_delete_def ids_issued_def list_all_iff
           split: option.splits if_splits)

lemma ids_le_step: "\<forall>r \<in> set xs. ID r \<le> s \<Longrightarrow> r \<in> set xs \<Longrightarrow> ID r \<le> s + 1"
  by fastforce

lemma Create_ids:
  assumes "Create f now req db = (res, db')" and "ids_issued db"
  shows "ids_issued db' \<and> todos_id_seq db \<le> todos_id_seq db' \<and>
         (\<forall>t. res = Inr t \<longrightarrow> todos_id_seq db < ID t \<and> ID t \<le> todos_id_seq db')"
  using assms
  by (auto simp: Create_def exec_insert_def reject_def ids_issued_def list_all_iff Let_def
           split: option.splits if_splits)
     ((drule (1) bspec, simp)+)

lemma perform_ids:
  assumes "perform c db = (rep, db')" and "ids_issued db"
  shows "ids_issued db' \<and> todos_id_seq db \<le> todos_id_seq db' \<and>
         (\<forall>t. rep = Created (Inr t) \<longrightarrow> todos_id_seq db < ID t \<and> ID t \<le> todos_id_seq db')"
proof (cases c)
  case (CallCreate f now req)
  obtain res d where e: "Create f now req db = (res, d)" by (cases "Create f now req db")
  then show ?thesis using assms CallCreate Create_ids [OF e] by auto
next
  case (CallGetByID f i)
  then show ?thesis using assms by auto
next
  case (CallList cf lf page pageSize completed)
  then show ?thesis using assms by auto
next
  case (CallUpdate gf uf now i req)
  obtain res d where e: "Update gf uf now i req db = (res, d)" by (cases "Update gf uf now i req db")
  then show ?thesis using assms CallUpdate Update_ids [OF e] by auto
next
  case (CallDelete f i)
  obtain res d where e: "Delete f i db = (res, d)" by (cases "Delete f i db")
  then show ?thesis using assms CallDelete Delete_ids [OF e] by auto
qed

lemma created_Cons:
  "created (rep # reps) = (case rep of Created (Inr t) \<Rightarrow> t # created reps | _ \<Rightarrow> created reps)"
  by (cases rep) (auto split: sum.splits)

lemma run_ids:
  assumes "run cs db = (reps, db')" and "ids_issued db"
  shows "ids_issued db' \<and> todos_id_seq db \<le> todos_id_seq db' \<and>
         (\<forall>t \<in> set (created reps). todos_id_seq db < ID t \<and> ID t \<le> todos_id_seq db') \<and>
         distinct (map ID (created reps))"
  using assms
proof (induction cs arbitrary: db reps db')
  case Nil
  then show ?case by simp
next
  case (Cons c cs)
  obtain rep d1 where p: "perform c db = (rep, d1)" by (cases "perform c db")
  obtain rs d2 where r: "run cs d1 = (rs, d2)" by (cases "run cs d1")
  have eq: "reps = rep # rs" "db' = d2" using Cons.prems(1) p r by simp_all
  note P = perform_ids [OF p Cons.prems(2)]
  note R = Cons.IH [OF r P [THEN conjunct1]]
  show ?case
    unfolding eq created_Cons
    using P R by (auto split: reply.splits sum.splits)
qed

lemma ids_issued_empty: "ids_issued empty_database"
  by (simp add: ids_issued_def empty_database_def)


lemma find_append_new:
  "\<not> list_ex P xs \<Longrightarrow> P y \<Longrightarrow> find P (xs @ [y]) = Some y"
  by (induction xs) auto

lemma ids_issued_fresh: "ids_issued db \<Longrightarrow> \<not> list_ex (\<lambda>r. ID r = todos_id_seq db + 1) (todos db)"
  by (auto simp: ids_issued_def list_all_iff list_ex_iff)

lemma exec_insert_accepts:
  assumes "length title \<le> 255" and "todos_id_seq db < 2147483647" and "ids_issued db"
  shows "exec_insert None now title description completed db =
           (Inr \<lparr>ID = todos_id_seq db + 1, Title = title, Description = description,
                 Completed = completed, CreatedAt = now, UpdatedAt = now\<rparr>,
            db\<lparr>todos_id_seq := todos_id_seq db + 1,
               todos := todos db @
                 [\<lparr>ID = todos_id_seq db + 1, Title = title, Description = description,
                   Completed = completed, CreatedAt = now, UpdatedAt = now\<rparr>]\<rparr>)"
  using assms ids_issued_fresh [OF assms(3)]
  by (simp add: exec_insert_def varchar255_def Let_def)

section \<open>Creating a record\<close>

text \<open>
  Claim C8.  After any sequence of calls on an empty store, for every creation input that
  passes validation, with the store call going through and the id sequence not exhausted:
  \<open>Create\<close> returns the record made of the input, the next value of the sequence as id and
  the instant of the statement as both \<open>created_at\<close> and \<open>updated_at\<close>; that record is
  stored, as a read of its id gives it; and its id differs from the id of every record
  created before, deleted or not, which all differ from each other.
\<close>

theorem Create_returns_new_record:
  assumes "run calls empty_database = (replies, db)"
    and "valid_create req"
    and "todos_id_seq db < 2147483647"
  shows "Create None now req db =
           (Inr \<lparr>ID = todos_id_seq db + 1, Title = create_Title req,
                 Description = create_Description req, Completed = create_Completed req,
                 CreatedAt = now, UpdatedAt = now\<rparr>,
            db\<lparr>todos_id_seq := todos_id_seq db + 1,
               todos := todos db @
                 [\<lparr>ID = todos_id_seq db + 1, Title = create_Title req,
                   Description = create_Description req, Completed = create_Completed req,
                   CreatedAt = now, UpdatedAt = now\<rparr>]\<rparr>) \<and>
         GetByID None (todos_id_seq db + 1)
           (db\<lparr>todos_id_seq := todos_id_seq db + 1,
               todos := todos db @
                 [\<lparr>ID = todos_id_seq db + 1, Title = create_Title req,
                   Description = create_Description req, Completed = create_Completed req,
                   CreatedAt = now, UpdatedAt = now\<rparr>]\<rparr>)
           = Inr \<lparr>ID = todos_id_seq db + 1, Title = create_Title req,
                   Description = create_Description req, Completed = create_Completed req,
                   CreatedAt = now, UpdatedAt = now\<rparr> \<and>
         (\<forall>t \<in> set (created replies). ID t \<noteq> todos_id_seq db + 1) \<and>
         distinct (map ID (created replies) @ [todos_id_seq db + 1])"
proof -
  let ?new = "\<lparr>ID = todos_id_seq db + 1, Title = create_Title req,
                 Description = create_Description req, Completed = create_Completed req,
                 CreatedAt = now, UpdatedAt = now\<rparr>"
  note R = run_ids [OF assms(1) ids_issued_empty]
  have i: "ids_issued db" using R by simp
  have l: "length (create_Title req) \<le> 255" using assms(2) by (simp add: valid_create_def)
  have c: "Create None now req db =
             (Inr ?new, db\<lparr>todos_id_seq := todos_id_seq db + 1, todos := todos db @ [?new]\<rparr>)"
    using exec_insert_accepts [OF l assms(3) i] by (simp add: Create_def)
  have "find (\<lambda>r. ID r = todos_id_seq db + 1) (todos db @ [?new]) = Some ?new"
    using ids_issued_fresh [OF i] by (rule find_append_new) simp
  then have g: "GetByID None (todos_id_seq db + 1)
             (db\<lparr>todos_id_seq := todos_id_seq db + 1, todos := todos db @ [?new]\<rparr>) = Inr ?new"
    by (intro GetByID_present) simp
  have u: "\<forall>t \<in> set (created replies). ID t \<noteq> todos_id_seq db + 1"
    using R by auto
  have d: "distinct (map ID (created replies) @ [todos_id_seq db + 1])"
    using R u by auto
  show ?thesis using c g u d by blast
qed

theorem Create_returns_new_record_witness:
  "run [CallCreate None 5 \<lparr>create_Title = ''Buy milk'', create_Description = [], create_Completed = False\<rparr>,
        CallDelete None 1] empty_database
     = ([Created (Inr row1), Deleted None], \<lparr>todos = [], todos_id_seq = 1\<rparr>) \<and>
   valid_create \<lparr>create_Title = ''Walk'', create_Description = ''dog'', create_Completed = True\<rparr> \<and>
   Create None 7 \<lparr>create_Title = ''Walk'', create_Description = ''dog'', create_Completed = True\<rparr>
       \<lparr>todos = [], todos_id_seq = 1\<rparr>
     = (Inr \<lparr>ID = 2, Title = ''Walk'', Description = ''dog'', Completed = True,
             CreatedAt = 7, UpdatedAt = 7\<rparr>,
        \<lparr>todos = [\<lparr>ID = 2, Title = ''Walk'', Description = ''dog'', Completed = True,
                     CreatedAt = 7, UpdatedAt = 7\<rparr>],
         todos_id_seq = 2\<rparr>) \<and>
   created [Created (Inr row1), Deleted None] = [row1] \<and> ID row1 = 1"
proof -
  have r: "run [CallCreate None 5 \<lparr>create_Title = ''Buy milk'', create_Description = [], create_Completed = False\<rparr>,
        CallDelete None 1] empty_database
     = ([Created (Inr row1), Deleted None], \<lparr>todos = [], todos_id_seq = 1\<rparr>)"
    by (simp add: empty_database_def Create_def exec_insert_def varchar255_def Delete_def
          exec_delete_def row1_def Let_def)
  have v: "valid_create \<lparr>create_Title = ''Walk'', create_Description = ''dog'', create_Completed = True\<rparr>"
    by (simp add: valid_create_def)
  have s: "todos_id_seq \<lparr>todos = [], todos_id_seq = 1\<rparr> < 2147483647" by simp
  show ?thesis
    using r v Create_returns_new_record [OF r v s, of 7]
    by (simp add: row1_def)
qed

section \<open>Store failures\<close>





end
